theory Spec2Isabelle
  imports Complex_Main
begin

section \<open>Python exceptions as values\<close>

text \<open>
  The exceptions that the functions of \<^verbatim>\<open>keystone.py\<close> can raise. A function that may
  raise returns \<open>exc + 'a\<close>, with \<open>Inl\<close> for the exception.
\<close>

datatype exc = ZeroDivisionError | ValueError | IndexError | UnicodeDecodeError | OSError

section \<open>Reading selection: \<^verbatim>\<open>pick_best\<close>\<close>

text \<open>
  \<^verbatim>\<open>
  def pick_best(obj):
      if obj[1] > obj[3]:  # compare confidence first/second target
          return obj[0]  # return first target
      else:
          return obj[2]  # return second target1
  \<close>
  \<open>obj\<close> is a list of integers (a slice of the object data). Reading a list at a constant
  non-negative index raises IndexError when the list is too short.
\<close>

definition item_at :: "'a list \<Rightarrow> nat \<Rightarrow> exc + 'a" where
  "item_at xs i = (if i < length xs then Inr (xs ! i) else Inl IndexError)"

definition pick_best :: "int list \<Rightarrow> exc + int" where
  "pick_best obj =
     (case item_at obj 1 of
        Inl e \<Rightarrow> Inl e
      | Inr c1 \<Rightarrow>
          (case item_at obj 3 of
             Inl e \<Rightarrow> Inl e
           | Inr c2 \<Rightarrow> if c1 > c2 then item_at obj 0 else item_at obj 2))"

section \<open>Geometry: \<^verbatim>\<open>calc_angle\<close>\<close>

text \<open>
  \<^verbatim>\<open>
  def calc_angle(center, edge, alpha):
      try:
          a = math.sqrt(center**2 + edge**2
                        - 2 * center * edge * math.cos(math.radians(alpha)))
          gamma = math.degrees(math.asin(edge / a * math.sin(math.radians(alpha))))
          phi = 90 - gamma
          if edge**2 > center**2 + a**2:
              phi = -phi
          return (phi)
      except ZeroDivisionError:
          return (0)
  \<close>
  Numbers are modelled as exact reals: the model follows the arithmetic of the source
  step by step, but not the rounding, overflow and non-numbers of IEEE doubles.
  \<^verbatim>\<open>math.sqrt\<close> raises ValueError below zero, \<^verbatim>\<open>math.asin\<close> raises ValueError outside
  \<open>[-1, 1]\<close>, and dividing by a zero \<open>a\<close> raises ZeroDivisionError, the one exception the
  function catches. \<open>a_squared\<close> is the argument of \<^verbatim>\<open>math.sqrt\<close>.
\<close>

definition radians :: "real \<Rightarrow> real" where
  "radians x = x * (pi / 180)"

definition degrees :: "real \<Rightarrow> real" where
  "degrees x = x * (180 / pi)"

definition a_squared :: "real \<Rightarrow> real \<Rightarrow> real \<Rightarrow> real" where
  "a_squared center edge alpha =
     center\<^sup>2 + edge\<^sup>2 - 2 * center * edge * cos (radians alpha)"

text \<open>The body of the \<^verbatim>\<open>try\<close>.\<close>

definition calc_angle_body :: "real \<Rightarrow> real \<Rightarrow> real \<Rightarrow> exc + real" where
  "calc_angle_body center edge alpha =
     (if a_squared center edge alpha < 0 then Inl ValueError
      else let a = sqrt (a_squared center edge alpha) in
        if a = 0 then Inl ZeroDivisionError
        else let x = edge / a * sin (radians alpha) in
          if x < - 1 \<or> 1 < x then Inl ValueError
          else let gamma = degrees (arcsin x); phi = 90 - gamma in
            Inr (if edge\<^sup>2 > center\<^sup>2 + a\<^sup>2 then - phi else phi))"

text \<open>\<^verbatim>\<open>except ZeroDivisionError: return (0)\<close>; any other exception escapes.\<close>

definition calc_angle :: "real \<Rightarrow> real \<Rightarrow> real \<Rightarrow> exc + real" where
  "calc_angle center edge alpha =
     (case calc_angle_body center edge alpha of
        Inl e \<Rightarrow> if e = ZeroDivisionError then Inr 0 else Inl e
      | Inr phi \<Rightarrow> Inr phi)"

text \<open>
  The argument that the source passes to \<^verbatim>\<open>math.asin\<close>.
\<close>

definition asin_arg :: "real \<Rightarrow> real \<Rightarrow> real \<Rightarrow> real" where
  "asin_arg center edge alpha =
     edge / sqrt (a_squared center edge alpha) * sin (radians alpha)"

text \<open>
  Two readings of the specification's words, used to state what it expects of
  \<^verbatim>\<open>calc_angle\<close>: a result that is an angle within \<open>tol\<close> degrees of zero, and a pair of
  results whose signs are opposite.
\<close>

definition near_zero :: "real \<Rightarrow> exc + real \<Rightarrow> bool" where
  "near_zero tol r = (case r of Inl e \<Rightarrow> False | Inr phi \<Rightarrow> \<bar>phi\<bar> \<le> tol)"


section \<open>Protocol reader: \<^verbatim>\<open>get_data_from_EVM_GUI\<close>\<close>

subsection \<open>Text\<close>

text \<open>
  \<^verbatim>\<open>str.split(sep)\<close> for a non-empty separator: the text is cut at every occurrence of
  \<open>sep\<close>, scanning from the left, and the result always has at least one field.
  \<open>acc\<close> holds the current field, reversed.
\<close>

function split_from :: "string \<Rightarrow> string \<Rightarrow> string \<Rightarrow> string list" where
  "split_from sep acc [] = [rev acc]"
| "split_from sep acc (c # cs) =
     (if sep \<noteq> [] \<and> take (length sep) (c # cs) = sep
      then rev acc # split_from sep [] (drop (length sep - 1) cs)
      else split_from sep (c # acc) cs)"
  by pat_completeness auto
termination
  by (relation "measure (\<lambda>(sep, acc, s). length s)") auto

definition split :: "string \<Rightarrow> string \<Rightarrow> string list" where
  "split sep s = split_from sep [] s"

definition crlf :: string where
  "crlf = [CHR 0x0D, CHR 0x0A]"

text \<open>
  \<^verbatim>\<open>[int(x) for x in xs]\<close>. Python's \<^verbatim>\<open>int\<close> on a string is a builtin, not code of this
  repository: it is the parameter \<open>parse\<close>, which gives \<open>None\<close> where \<^verbatim>\<open>int\<close> raises
  ValueError. The comprehension raises as soon as one element does.
\<close>

fun int_all :: "(string \<Rightarrow> int option) \<Rightarrow> string list \<Rightarrow> int list option" where
  "int_all parse [] = Some []"
| "int_all parse (x # xs) =
     (case parse x of None \<Rightarrow> None
      | Some n \<Rightarrow> (case int_all parse xs of None \<Rightarrow> None | Some ns \<Rightarrow> Some (n # ns)))"

text \<open>
  A sample of \<^verbatim>\<open>int\<close> for running the model on concrete lines: plain decimal digits with
  an optional minus sign. The theorems below hold for every \<open>parse\<close>.
\<close>

definition digit_val :: "char \<Rightarrow> int option" where
  "digit_val c =
     (let n = (of_char c :: nat)
      in if 48 \<le> n \<and> n \<le> 57 then Some (int n - 48) else None)"

fun digits_val :: "int \<Rightarrow> string \<Rightarrow> int option" where
  "digits_val acc [] = Some acc"
| "digits_val acc (c # cs) =
     (case digit_val c of None \<Rightarrow> None | Some d \<Rightarrow> digits_val (10 * acc + d) cs)"

definition decimal :: "string \<Rightarrow> int option" where
  "decimal s =
     (case s of [] \<Rightarrow> None
      | c # cs \<Rightarrow>
          if c = CHR ''-'' then (if cs = [] then None else map_option uminus (digits_val 0 cs))
          else digits_val 0 s)"

text \<open>
  Assignment \<^verbatim>\<open>xs[i] = v\<close> with a computed index: a negative index counts from the end,
  and an index out of range raises IndexError.
\<close>

definition store_at :: "'a list \<Rightarrow> int \<Rightarrow> 'a \<Rightarrow> exc + 'a list" where
  "store_at xs i v =
     (let n = int (length xs); j = (if i < 0 then n + i else i)
      in if 0 \<le> j \<and> j < n then Inr (xs[nat j := v]) else Inl IndexError)"

subsection \<open>State and results\<close>

text \<open>
  An element of \<^verbatim>\<open>background\<close> is the integer it was initialised with or the float that
  \<^verbatim>\<open>sum(...)/8\<close> gives. The model keeps the exact quotient. That is the double the code
  stores as long as the sum is below \<open>2^53\<close> in absolute value; beyond it the code rounds,
  and past the range of doubles the division raises OverflowError, which neither handler
  catches. The model does neither, so what is proved about the stored average carries the
  bound on the sum.
\<close>

datatype num = PyInt int | PyFloat real

text \<open>
  The local variables \<^verbatim>\<open>xtalk\<close>, \<^verbatim>\<open>background\<close>, \<^verbatim>\<open>iterations\<close> and the global
  \<^verbatim>\<open>tof_id\<close> (\<open>None\<close> until it is first set).
\<close>

record reader =
  xtalk :: "int list"
  background :: "num list"
  iterations :: int
  tof_id :: "string option"

text \<open>
  The returned tuple \<^verbatim>\<open>(description, xtalk, background, iterations, obj)\<close>. The description
  is either a literal or the f-string \<^verbatim>\<open>f'XTalk {xtalk} BG {background}'\<close>, kept as the two
  lists it prints. The second and third components are a list or the integer \<^verbatim>\<open>0\<close>.
\<close>

datatype description = Literal string | XTalk_BG "int list" "num list"

datatype 'a stat = Scalar int | Per_channel "'a list"

type_synonym snapshot = "description \<times> int stat \<times> num stat \<times> int \<times> int list option"

text \<open>
  What the statements inside the inner \<^verbatim>\<open>try\<close> do: go on to the next statement, return
  from the function, or raise. Each carries the state reached.
\<close>

datatype step = Next reader | Return snapshot reader | Raise exc reader

fun and_then :: "step \<Rightarrow> (reader \<Rightarrow> step) \<Rightarrow> step" where
  "and_then (Next st) k = k st"
| "and_then (Return r st) k = Return r st"
| "and_then (Raise e st) k = Raise e st"

subsection \<open>One line\<close>

text \<open>
  \<^verbatim>\<open>
  data = item.split(';')
  if data[0] == '#VER':
      tof_id = f'TMF882X ID {data[1]} - App {data[2]} - Drv {data[3]}'
  if data[0][0:6] == '#HLONG':  # histograms
      entry = int(data[0][7]) # which histogram?
      pt_hist = [int(x) for x in data[1:]]  # convert to int list
      xtalk[entry] = max(pt_hist[5:20])  # search for the crosstalk peak
      background[entry] = sum(pt_hist[0:8])/8
  if data[0] == '#OBJ':  # OBJ is always the last entry
      obj = [int(x) for x in data[5:]]
      return (f'XTalk {xtalk} BG {background}', xtalk, background, iterations, obj)
  if data[0] == '#ITT':  # iterations
      iterations = int(data[2])
  \<close>
  One definition for each \<^verbatim>\<open>if\<close>, in the order of the source. A slice never raises;
  an index does (\<open>indexed\<close> passes the exception on); \<^verbatim>\<open>int\<close> and \<^verbatim>\<open>max\<close> of an empty
  list raise ValueError (\<open>converted\<close>).
\<close>

definition indexed :: "exc + 'a \<Rightarrow> reader \<Rightarrow> ('a \<Rightarrow> step) \<Rightarrow> step" where
  "indexed r st k = (case r of Inl e \<Rightarrow> Raise e st | Inr v \<Rightarrow> k v)"

definition converted :: "'a option \<Rightarrow> reader \<Rightarrow> ('a \<Rightarrow> step) \<Rightarrow> step" where
  "converted r st k = (case r of None \<Rightarrow> Raise ValueError st | Some v \<Rightarrow> k v)"

definition on_ver :: "string list \<Rightarrow> reader \<Rightarrow> step" where
  "on_ver data st =
     indexed (item_at data 0) st (\<lambda>tag.
       if tag = ''#VER'' then
         indexed (item_at data 1) st (\<lambda>d1.
         indexed (item_at data 2) st (\<lambda>d2.
         indexed (item_at data 3) st (\<lambda>d3.
           Next (st\<lparr>tof_id :=
             Some (''TMF882X ID '' @ d1 @ '' - App '' @ d2 @ '' - Drv '' @ d3)\<rparr>))))
       else Next st)"

definition on_hlong :: "(string \<Rightarrow> int option) \<Rightarrow> string list \<Rightarrow> reader \<Rightarrow> step" where
  "on_hlong parse data st =
     indexed (item_at data 0) st (\<lambda>tag.
       if take 6 tag = ''#HLONG'' then
         indexed (item_at tag 7) st (\<lambda>c.
         converted (parse [c]) st (\<lambda>entry.
         converted (int_all parse (drop 1 data)) st (\<lambda>pt_hist.
         converted (case take 15 (drop 5 pt_hist) of [] \<Rightarrow> None
                    | w # ws \<Rightarrow> Some (fold max ws w)) st (\<lambda>peak.
         indexed (store_at (xtalk st) entry peak) st (\<lambda>xt.
         indexed (store_at (background st) entry
                    (PyFloat (real_of_int (sum_list (take 8 pt_hist)) / 8)))
                 (st\<lparr>xtalk := xt\<rparr>) (\<lambda>bg.
           Next (st\<lparr>xtalk := xt, background := bg\<rparr>)))))))
       else Next st)"

definition on_obj :: "(string \<Rightarrow> int option) \<Rightarrow> string list \<Rightarrow> reader \<Rightarrow> step" where
  "on_obj parse data st =
     indexed (item_at data 0) st (\<lambda>tag.
       if tag = ''#OBJ'' then
         converted (int_all parse (drop 5 data)) st (\<lambda>obj.
           Return (XTalk_BG (xtalk st) (background st), Per_channel (xtalk st),
                   Per_channel (background st), iterations st, Some obj) st)
       else Next st)"

definition on_itt :: "(string \<Rightarrow> int option) \<Rightarrow> string list \<Rightarrow> reader \<Rightarrow> step" where
  "on_itt parse data st =
     indexed (item_at data 0) st (\<lambda>tag.
       if tag = ''#ITT'' then
         indexed (item_at data 2) st (\<lambda>d.
         converted (parse d) st (\<lambda>n.
           Next (st\<lparr>iterations := n\<rparr>)))
       else Next st)"

text \<open>
  \<^verbatim>\<open>data[0]\<close>, the tag of a line. \<^verbatim>\<open>split\<close> never gives an empty list.
\<close>

definition tag_of :: "string \<Rightarrow> string" where
  "tag_of item = hd (split '';'' item)"

definition item_body :: "(string \<Rightarrow> int option) \<Rightarrow> string \<Rightarrow> reader \<Rightarrow> step" where
  "item_body parse item st =
     (let data = split '';'' item
      in and_then (and_then (and_then (on_ver data st) (on_hlong parse data))
                    (on_obj parse data)) (on_itt parse data))"

text \<open>
  \<^verbatim>\<open>try: ... except (ValueError, IndexError) as e: pass\<close>
\<close>

definition try_item :: "(string \<Rightarrow> int option) \<Rightarrow> string \<Rightarrow> reader \<Rightarrow> step" where
  "try_item parse item st =
     (case item_body parse item st of
        Raise e st' \<Rightarrow> if e = ValueError \<or> e = IndexError then Next st' else Raise e st'
      | Next st' \<Rightarrow> Next st'
      | Return r st' \<Rightarrow> Return r st')"

subsection \<open>The lines of one read, and the read loop\<close>

text \<open>
  \<^verbatim>\<open>for item in entries: ...\<close>
\<close>

fun process_entries :: "(string \<Rightarrow> int option) \<Rightarrow> string list \<Rightarrow> reader \<Rightarrow> step" where
  "process_entries parse [] st = Next st"
| "process_entries parse (item # rest) st =
     (case try_item parse item st of
        Next st' \<Rightarrow> process_entries parse rest st'
      | Return r st' \<Rightarrow> Return r st'
      | Raise e st' \<Rightarrow> Raise e st')"

text \<open>
  The socket is what it does when called: whether \<^verbatim>\<open>sendall\<close> succeeds, and what the
  \<open>n\<close>-th call of \<^verbatim>\<open>recv\<close> gives: bytes that decode as UTF-8 to a text, bytes that do
  not, \<^verbatim>\<open>socket.timeout\<close>, or another socket error.
\<close>

datatype event = Data string | Undecodable | Timeout | Failure

record sock =
  sendall_ok :: bool
  recv :: "nat \<Rightarrow> event"

text \<open>
  How a call ends, with the value of the global \<^verbatim>\<open>tof_id\<close> at that moment.
\<close>

datatype outcome = Returned snapshot "string option" | Raised exc "string option"

text \<open>
  \<^verbatim>\<open>
  while True:
      try:
          s = str(sock.recv(10000), 'utf-8')
          entries = s.split('\r\n')
          for item in entries: ...
      except socket.timeout:
          tof_id = ''
          return('No device connected', 0, 0, 0, None)
  \<close>
  The loop has no bound: it ends only with a return or an exception, so it is a partial
  function, and \<open>None\<close> is the call that never returns.
\<close>

partial_function (option) recv_loop ::
  "(string \<Rightarrow> int option) \<Rightarrow> (nat \<Rightarrow> event) \<Rightarrow> nat \<Rightarrow> reader \<Rightarrow> outcome option" where
  "recv_loop parse rcv n st =
     (case rcv n of
        Timeout \<Rightarrow>
          Some (Returned (Literal ''No device connected'', Scalar 0, Scalar 0, 0, None) (Some []))
      | Failure \<Rightarrow> Some (Raised OSError (tof_id st))
      | Undecodable \<Rightarrow> Some (Raised UnicodeDecodeError (tof_id st))
      | Data s \<Rightarrow>
          (case process_entries parse (split crlf s) st of
             Next st' \<Rightarrow> recv_loop parse rcv (Suc n) st'
           | Return r st' \<Rightarrow> Some (Returned r (tof_id st'))
           | Raise e st' \<Rightarrow> Some (Raised e (tof_id st'))))"

text \<open>
  \<^verbatim>\<open>
  xtalk = [0]*10  # initialize
  background = [0]*10
  iterations = 0
  obj = None  # initialize
  sock.sendall(b'(m0)')  # run measurement command 'm'
  \<close>
\<close>

definition initial :: "string option \<Rightarrow> reader" where
  "initial tof =
     \<lparr>xtalk = replicate 10 0, background = replicate 10 (PyInt 0),
      iterations = 0, tof_id = tof\<rparr>"

definition get_data_from_EVM_GUI ::
  "(string \<Rightarrow> int option) \<Rightarrow> sock \<Rightarrow> string option \<Rightarrow> outcome option" where
  "get_data_from_EVM_GUI parse s tof =
     (if sendall_ok s then recv_loop parse (recv s) 0 (initial tof)
      else Some (Raised OSError tof))"



subsection \<open>Sample input\<close>

text \<open>
  Lines in the format the reader expects, for running the model: a histogram of channel 3
  with 22 bins, and an object record with five leading fields and 36 trailing ones. One
  socket delivers them in two reads and then times out; the other delivers the histogram
  and times out.
\<close>

definition sample_hist_line :: string where
  "sample_hist_line =
     ''#HLONG03;4;6;5;7;3;40;41;90;42;43;44;45;46;47;48;49;50;51;52;53;1;2''"






definition silent_sock :: sock where
  "silent_sock =
     \<lparr>sendall_ok = True,
      recv = (\<lambda>i. if i = 0 then Data (sample_hist_line @ crlf) else Timeout)\<rparr>"

section \<open>Properties of \<^verbatim>\<open>pick_best\<close>\<close>

lemma pick_best_quadruple:
  "pick_best [d1, c1, d2, c2] = Inr (if c1 > c2 then d1 else d2)"
  by (simp add: pick_best_def item_at_def)

text \<open>
  C3. The claim: the reading with the higher confidence is returned, and on equal
  confidences the primary one. The docstring of \<^verbatim>\<open>pick_best\<close> says the same (the second
  target is used "if it has higher confidence"). The source compares with \<^verbatim>\<open>>\<close> and takes
  the second target in the \<^verbatim>\<open>else\<close> branch, so on equal confidences 50 and 50 it returns
  the secondary distance 90, not the primary distance 10.
\<close>

theorem pick_best_tie_returns_secondary:
  "pick_best [10, 50, 90, 50] = Inr 90"
  by (simp add: pick_best_def item_at_def)

section \<open>Properties of \<^verbatim>\<open>calc_angle\<close>\<close>

lemma a_squared_decomp:
  "a_squared c e al = (c - e * cos (radians al))\<^sup>2 + (e * sin (radians al))\<^sup>2"
  unfolding a_squared_def using sin_cos_squared_add [of "radians al"] by algebra

lemma a_squared_nonneg: "0 \<le> a_squared c e al"
  unfolding a_squared_decomp by simp

lemma asin_arg_sq_le:
  "(e * sin (radians al))\<^sup>2 \<le> a_squared c e al"
  unfolding a_squared_decomp by simp

lemma asin_arg_bounds:
  assumes "sqrt (a_squared c e al) \<noteq> 0"
  shows "\<bar>e / sqrt (a_squared c e al) * sin (radians al)\<bar> \<le> 1"
proof -
  let ?a = "sqrt (a_squared c e al)"
  have pos: "0 < ?a" using assms a_squared_nonneg[of c e al] by (simp add: less_le)
  have "\<bar>e * sin (radians al)\<bar> \<le> ?a"
    using asin_arg_sq_le[of e al c] by (metis real_le_rsqrt real_sqrt_abs real_sqrt_le_iff)
  then show ?thesis using pos by (simp add: field_simps abs_mult)
qed

lemma sin_radians_pos: "0 < al \<Longrightarrow> al < 180 \<Longrightarrow> 0 < sin (radians al)"
  unfolding radians_def by (intro sin_gt_zero) (auto simp: field_simps)

lemma cos_lt_one_radians: "0 < al \<Longrightarrow> al < 180 \<Longrightarrow> cos (radians al) < 1"
proof -
  assume "0 < al" "al < 180"
  then have "0 < radians al" "radians al \<le> pi"
    unfolding radians_def by (auto simp: field_simps)
  then show ?thesis using cos_monotone_0_pi [of 0 "radians al"] by simp
qed

lemma a_squared_pos:
  assumes "0 < e" "0 < al" "al < 180"
  shows "0 < a_squared c e al"
proof -
  have "0 < e * sin (radians al)" using assms sin_radians_pos by simp
  then have "0 < (e * sin (radians al))\<^sup>2" by (rule zero_less_power)
  then show ?thesis using asin_arg_sq_le[of e al c] by linarith
qed


lemma side_pos:
  assumes "0 < e" "0 < al" "al < 180"
  shows "0 < sqrt (a_squared c e al)"
  using a_squared_pos [OF assms] by simp

lemma asin_arg_pos:
  assumes "0 < e" "0 < al" "al < 180"
  shows "0 < asin_arg c e al"
  unfolding asin_arg_def using side_pos [OF assms] sin_radians_pos assms by simp

lemma asin_arg_le_1:
  assumes "0 < e" "0 < al" "al < 180"
  shows "asin_arg c e al \<le> 1"
  unfolding asin_arg_def using asin_arg_bounds [of c e al] side_pos [OF assms, of c] by simp

lemma asin_arg_eq_1_iff:
  assumes "0 < e" "0 < al" "al < 180"
  shows "asin_arg c e al = 1 \<longleftrightarrow> c = e * cos (radians al)"
proof -
  let ?t = "radians al" and ?a = "sqrt (a_squared c e al)"
  have apos: "0 < ?a" by (rule side_pos [OF assms])
  have spos: "0 < e * sin ?t" using assms sin_radians_pos by simp
  have "asin_arg c e al = 1 \<longleftrightarrow> e * sin ?t = ?a"
    unfolding asin_arg_def using apos by (auto simp add: field_simps)
  also have "\<dots> \<longleftrightarrow> (e * sin ?t)\<^sup>2 = a_squared c e al"
    using spos a_squared_nonneg [of c e al]
    by (metis abs_of_pos real_sqrt_abs real_sqrt_pow2)
  also have "\<dots> \<longleftrightarrow> (c - e * cos ?t)\<^sup>2 = 0"
    unfolding a_squared_decomp by simp
  also have "\<dots> \<longleftrightarrow> c = e * cos ?t" by simp
  finally show ?thesis .
qed

lemma obtuse_iff:
  assumes "0 < c"
  shows "e\<^sup>2 > c\<^sup>2 + (sqrt (a_squared c e al))\<^sup>2 \<longleftrightarrow> e * cos (radians al) > c"
proof -
  have "(sqrt (a_squared c e al))\<^sup>2 = a_squared c e al"
    using a_squared_nonneg by simp
  moreover have "e\<^sup>2 > c\<^sup>2 + a_squared c e al \<longleftrightarrow> 0 < c * (e * cos (radians al) - c)"
    unfolding a_squared_def by (simp add: power2_eq_square algebra_simps)
  moreover have "0 < c * (e * cos (radians al) - c) \<longleftrightarrow> e * cos (radians al) > c"
    using assms by (simp add: zero_less_mult_iff)
  ultimately show ?thesis by simp
qed

lemma calc_angle_eval:
  assumes "0 < c" "0 < e" "0 < al" "al < 180"
  shows "calc_angle c e al =
     Inr (if e * cos (radians al) > c then - (90 - degrees (arcsin (asin_arg c e al)))
          else 90 - degrees (arcsin (asin_arg c e al)))"
proof -
  have 1: "\<not> a_squared c e al < 0" using a_squared_nonneg [of c e al] by simp
  have 2: "sqrt (a_squared c e al) \<noteq> 0" using side_pos [OF assms(2-4), of c] by simp
  have 3: "\<not> (asin_arg c e al < - 1 \<or> 1 < asin_arg c e al)"
    using asin_arg_pos [OF assms(2-4), of c] asin_arg_le_1 [OF assms(2-4), of c] by simp
  show ?thesis
    using 1 2 3 obtuse_iff [OF assms(1), of e al]
    unfolding calc_angle_def calc_angle_body_def Let_def asin_arg_def [symmetric] by simp
qed

lemma gamma_bounds:
  assumes "0 < x" "x \<le> 1"
  shows "0 < degrees (arcsin x)" "degrees (arcsin x) \<le> 90"
    "degrees (arcsin x) = 90 \<longleftrightarrow> x = 1"
proof -
  have p: "0 < arcsin x" using arcsin_less_arcsin [of 0 x] assms by simp
  have u: "arcsin x \<le> pi / 2" using arcsin_ubound [of x] assms by simp
  show "0 < degrees (arcsin x)" unfolding degrees_def using p by simp
  show "degrees (arcsin x) \<le> 90" unfolding degrees_def using u by (simp add: field_simps)
  have "degrees (arcsin x) = 90 \<longleftrightarrow> arcsin x = pi / 2"
    unfolding degrees_def by (simp add: field_simps)
  also have "\<dots> \<longleftrightarrow> arcsin x = arcsin 1" by simp
  also have "\<dots> \<longleftrightarrow> x = 1" using assms by (intro arcsin_eq_iff) auto
  finally show "degrees (arcsin x) = 90 \<longleftrightarrow> x = 1" .
qed

lemma calc_angle_sign:
  assumes "0 < c" "0 < e" "0 < al" "al < 180"
  shows "\<exists>p. calc_angle c e al = Inr p \<and> sgn p = sgn (c - e * cos (radians al))"
proof -
  let ?x = "asin_arg c e al" and ?g = "degrees (arcsin (asin_arg c e al))"
  note xb = asin_arg_pos [OF assms(2-4), of c] asin_arg_le_1 [OF assms(2-4), of c]
  note g = gamma_bounds [OF xb]
  have eq1: "?g = 90 \<longleftrightarrow> c = e * cos (radians al)"
    using g(3) asin_arg_eq_1_iff [OF assms(2-4), of c] by simp
  show ?thesis
  proof (cases "e * cos (radians al) > c")
    case True
    then have "?g < 90" using g(2) eq1 by (simp add: less_le)
    then show ?thesis using True calc_angle_eval [OF assms] by simp
  next
    case False
    show ?thesis
    proof (cases "c = e * cos (radians al)")
      case True
      then show ?thesis using eq1 calc_angle_eval [OF assms] by simp
    next
      case neq: False
      then have "?g < 90" using g(2) eq1 by (simp add: less_le)
      moreover have "c > e * cos (radians al)" using False neq by simp
      ultimately show ?thesis using calc_angle_eval [OF assms] by simp
    qed
  qed
qed

text \<open>
  In exact arithmetic, positive distances and an angle strictly between 0 and 180 degrees
  give a side \<open>a > 0\<close> (\<open>side_pos\<close>) and an argument of the inverse sine in \<open>(0, 1]\<close>
  (\<open>asin_arg_pos\<close>, \<open>asin_arg_le_1\<close>), so that no branch of \<open>calc_angle_body\<close> raises
  (\<open>calc_angle_eval\<close>), and the result lies strictly between -90 and 90 degrees. The
  rounding of doubles is not part of this model.
\<close>

lemma calc_angle_range:
  assumes "0 < c" "0 < e" "0 < al" "al < 180"
  shows "\<exists>p. calc_angle c e al = Inr p \<and> - 90 < p \<and> p < 90"
proof -
  note xb = asin_arg_pos [OF assms(2-4), of c] asin_arg_le_1 [OF assms(2-4), of c]
  note g = gamma_bounds [OF xb]
  show ?thesis using calc_angle_eval [OF assms] g(1,2) by simp
qed


lemma calc_angle_equal_distances:
  assumes "0 < x" "0 < al" "al < 180"
  shows "calc_angle x x al = Inr (al / 2)"
proof -
  let ?t = "radians al" and ?h = "radians al / 2"
  have t: "?t = 2 * ?h" by simp
  have h: "0 < ?h" "?h < pi / 2"
    using assms unfolding radians_def by (auto simp: field_simps)
  have s: "0 < sin ?h" using h by (intro sin_gt_zero2)
  have "cos ?t = 1 - 2 * (sin ?h)\<^sup>2"
    using cos_double_sin [of ?h] by simp
  then have "a_squared x x al = (2 * x * sin ?h)\<^sup>2"
    unfolding a_squared_def by algebra
  then have a: "sqrt (a_squared x x al) = 2 * x * sin ?h"
    using s assms(1) by simp
  have "sin ?t = 2 * sin ?h * cos ?h"
    using sin_double [of ?h] by simp
  then have arg: "asin_arg x x al = cos ?h"
    unfolding asin_arg_def a using s assms(1) by simp
  have "arcsin (cos ?h) = pi / 2 - ?h"
    using h by (intro arcsin_unique) (auto simp: sin_diff)
  then have g: "degrees (arcsin (asin_arg x x al)) = 90 - al / 2"
    unfolding arg degrees_def radians_def by (simp add: field_simps)
  have "\<not> x * cos ?t > x"
    using assms(1) cos_le_one [of ?t] by (simp add: not_less)
  then show ?thesis using calc_angle_eval [OF assms(1) assms] g by simp
qed

lemma calc_angle_zero_side:
  assumes "sqrt (a_squared c e al) = 0"
  shows "calc_angle c e al = Inr 0"
  using assms unfolding calc_angle_def calc_angle_body_def by simp

lemma a_squared_0_0: "a_squared 0 0 al = 0"
  by (simp add: a_squared_def)

text \<open>
  C2. \<^verbatim>\<open>calc_angle(0, 0, alpha)\<close> returns 0 for every \<open>alpha\<close>, and whenever the derived
  side \<open>a\<close> is zero the function returns 0: the division raises ZeroDivisionError, which
  the function catches.
\<close>

theorem calc_angle_degenerate_returns_zero:
  "calc_angle 0 0 alpha = Inr 0 \<and>
   (sqrt (a_squared center edge alpha) = 0 \<longrightarrow> calc_angle center edge alpha = Inr 0)"
  using calc_angle_zero_side [of center edge alpha] calc_angle_zero_side [of 0 0 alpha]
  by (simp add: a_squared_0_0)

theorem calc_angle_degenerate_returns_zero_witness:
  "sqrt (a_squared 7 7 0) = 0 \<and> calc_angle 7 7 0 = Inr 0 \<and> calc_angle 0 0 0 = Inr 0"
proof -
  have h: "sqrt (a_squared 7 7 0) = 0"
    by (simp add: a_squared_def radians_def)
  show ?thesis
    using h calc_angle_degenerate_returns_zero [of 0 7 7] by simp
qed

text \<open>
  C6. The claim: for center = 1000, edge = 1000 and alpha = 11 degrees the result is
  zero within tolerance. It is not: two equal distances make an isosceles triangle, whose
  base angles are 90 - alpha/2, so the result is alpha/2 = 5.5 degrees, further than one
  whole degree from zero.
\<close>

theorem calc_angle_worked_example_not_near_zero:
  "\<not> near_zero 1 (calc_angle 1000 1000 11)"
  using calc_angle_equal_distances [of 1000 11] by (simp add: near_zero_def)

text \<open>
  C6, as amended: for center = 1000, edge = 1000 and alpha = 11 degrees the result is
  5.5 degrees, half of alpha.
\<close>

theorem calc_angle_worked_example_half_alpha:
  "calc_angle 1000 1000 11 = Inr (11 / 2)"
  using calc_angle_equal_distances [of 1000 11] by simp




section \<open>Properties of the protocol reader\<close>

lemma split_from_nonempty: "split_from sep acc s \<noteq> []"
  by (induction sep acc s rule: split_from.induct) auto

lemma split_nonempty: "split sep s \<noteq> []"
  by (simp add: split_def split_from_nonempty)

lemma item_at_0: "xs \<noteq> [] \<Longrightarrow> item_at xs 0 = Inr (hd xs)"
  by (cases xs) (simp_all add: item_at_def)


lemma hlong_not_others:
  "take 6 tag = ''#HLONG'' \<Longrightarrow> tag \<noteq> ''#VER'' \<and> tag \<noteq> ''#OBJ'' \<and> tag \<noteq> ''#ITT''"
  by auto

lemma and_then_Next: "and_then r Next = r"
  by (cases r) simp_all

lemma on_ver_skip:
  "item_at d 0 = Inr tag \<Longrightarrow> tag \<noteq> ''#VER'' \<Longrightarrow> on_ver d st = Next st"
  by (simp add: on_ver_def indexed_def)

lemma on_hlong_skip:
  "item_at d 0 = Inr tag \<Longrightarrow> take 6 tag \<noteq> ''#HLONG'' \<Longrightarrow> on_hlong parse d = Next"
  by (rule ext) (simp add: on_hlong_def indexed_def)

lemma on_obj_skip:
  "item_at d 0 = Inr tag \<Longrightarrow> tag \<noteq> ''#OBJ'' \<Longrightarrow> on_obj parse d = Next"
  by (rule ext) (simp add: on_obj_def indexed_def)

lemma on_itt_skip:
  "item_at d 0 = Inr tag \<Longrightarrow> tag \<noteq> ''#ITT'' \<Longrightarrow> on_itt parse d = Next"
  by (rule ext) (simp add: on_itt_def indexed_def)

lemma item_at_tag: "item_at (split '';'' item) 0 = Inr (tag_of item)"
  using item_at_0 [OF split_nonempty] by (simp add: tag_of_def)

lemma item_body_ver:
  assumes "tag_of item = ''#VER''"
  shows "item_body parse item st = on_ver (split '';'' item) st"
  using assms
  by (simp add: item_body_def and_then_Next
      on_hlong_skip [OF item_at_tag] on_obj_skip [OF item_at_tag] on_itt_skip [OF item_at_tag])

lemma item_body_hlong:
  assumes "take 6 (tag_of item) = ''#HLONG''"
  shows "item_body parse item st = on_hlong parse (split '';'' item) st"
  using hlong_not_others [OF assms]
  by (simp add: item_body_def and_then_Next
      on_ver_skip [OF item_at_tag] on_obj_skip [OF item_at_tag] on_itt_skip [OF item_at_tag])

lemma item_body_obj:
  assumes "tag_of item = ''#OBJ''"
  shows "item_body parse item st = on_obj parse (split '';'' item) st"
  using assms
  by (simp add: item_body_def and_then_Next
      on_ver_skip [OF item_at_tag] on_hlong_skip [OF item_at_tag] on_itt_skip [OF item_at_tag])

lemma item_body_itt:
  assumes "tag_of item = ''#ITT''"
  shows "item_body parse item st = on_itt parse (split '';'' item) st"
  using assms
  by (simp add: item_body_def and_then_Next
      on_ver_skip [OF item_at_tag] on_hlong_skip [OF item_at_tag] on_obj_skip [OF item_at_tag])

lemma item_body_other:
  assumes "tag_of item \<noteq> ''#VER''" "take 6 (tag_of item) \<noteq> ''#HLONG''"
    "tag_of item \<noteq> ''#OBJ''" "tag_of item \<noteq> ''#ITT''"
  shows "item_body parse item st = Next st"
  using assms
  by (simp add: item_body_def and_then_Next on_ver_skip [OF item_at_tag]
      on_hlong_skip [OF item_at_tag] on_obj_skip [OF item_at_tag] on_itt_skip [OF item_at_tag])

text \<open>What can be raised, and in which state.\<close>

lemma item_at_error: "item_at xs i = Inl e \<Longrightarrow> e = IndexError"
  by (simp add: item_at_def split: if_splits)

lemma store_at_error: "store_at xs i v = Inl e \<Longrightarrow> e = IndexError"
  by (simp add: store_at_def Let_def split: if_splits)

lemma on_ver_raise:
  "on_ver d st = Raise e st' \<Longrightarrow> e = IndexError \<and> st' = st"
  by (auto simp: on_ver_def indexed_def split: sum.splits if_splits dest: item_at_error)

lemma on_obj_raise:
  "on_obj parse d st = Raise e st' \<Longrightarrow> (e = ValueError \<or> e = IndexError) \<and> st' = st"
  by (auto simp: on_obj_def indexed_def converted_def
      split: sum.splits if_splits option.splits dest: item_at_error)

lemma on_itt_raise:
  "on_itt parse d st = Raise e st' \<Longrightarrow> (e = ValueError \<or> e = IndexError) \<and> st' = st"
  by (auto simp: on_itt_def indexed_def converted_def
      split: sum.splits if_splits option.splits dest: item_at_error)

lemma on_hlong_raise:
  "on_hlong parse d st = Raise e st' \<Longrightarrow>
     (e = ValueError \<and> st' = st) \<or> e = IndexError"
  by (auto simp: on_hlong_def indexed_def converted_def
      split: sum.splits if_splits option.splits list.splits
      dest: item_at_error store_at_error)

lemma on_ver_no_return: "on_ver d st \<noteq> Return r st'"
  by (auto simp: on_ver_def indexed_def split: sum.splits if_splits)

lemma on_itt_no_return: "on_itt parse d st \<noteq> Return r st'"
  by (auto simp: on_itt_def indexed_def converted_def split: sum.splits if_splits option.splits)

lemma on_hlong_no_return: "on_hlong parse d st \<noteq> Return r st'"
  by (auto simp: on_hlong_def indexed_def converted_def
      split: sum.splits if_splits option.splits list.splits)

lemma item_body_raise:
  assumes "item_body parse item st = Raise e st'"
  shows "e = ValueError \<or> e = IndexError"
proof -
  consider "tag_of item = ''#VER''" | "take 6 (tag_of item) = ''#HLONG''"
    | "tag_of item = ''#OBJ''" | "tag_of item = ''#ITT''"
    | "tag_of item \<noteq> ''#VER''" "take 6 (tag_of item) \<noteq> ''#HLONG''"
      "tag_of item \<noteq> ''#OBJ''" "tag_of item \<noteq> ''#ITT''"
    by blast
  then show ?thesis
  proof cases
    case 1 then show ?thesis using assms by (auto simp: item_body_ver dest: on_ver_raise)
  next
    case 2 then show ?thesis using assms by (auto simp: item_body_hlong dest: on_hlong_raise)
  next
    case 3 then show ?thesis using assms by (auto simp: item_body_obj dest: on_obj_raise)
  next
    case 4 then show ?thesis using assms by (auto simp: item_body_itt dest: on_itt_raise)
  next
    case 5 then show ?thesis using assms by (simp add: item_body_other)
  qed
qed


lemma try_item_no_raise: "try_item parse item st \<noteq> Raise e st'"
  using item_body_raise [of parse item st]
  by (auto simp: try_item_def split: step.splits)

lemma item_body_return:
  assumes "item_body parse item st = Return r st'"
  shows "tag_of item = ''#OBJ''"
proof (rule ccontr)
  assume n: "tag_of item \<noteq> ''#OBJ''"
  consider "tag_of item = ''#VER''" | "take 6 (tag_of item) = ''#HLONG''"
    | "tag_of item = ''#ITT''"
    | "tag_of item \<noteq> ''#VER''" "take 6 (tag_of item) \<noteq> ''#HLONG''"
      "tag_of item \<noteq> ''#OBJ''" "tag_of item \<noteq> ''#ITT''"
    using n by blast
  then show False
  proof cases
    case 1 then show ?thesis using assms on_ver_no_return by (simp add: item_body_ver)
  next
    case 2 then show ?thesis using assms on_hlong_no_return by (simp add: item_body_hlong)
  next
    case 3 then show ?thesis using assms on_itt_no_return by (simp add: item_body_itt)
  next
    case 4 then show ?thesis using assms by (simp add: item_body_other)
  qed
qed

lemma try_item_next:
  assumes "tag_of item \<noteq> ''#OBJ''"
  shows "\<exists>st'. try_item parse item st = Next st'"
proof (cases "try_item parse item st")
  case (Next x) then show ?thesis by simp
next
  case (Return r x)
  then have "item_body parse item st = Return r x"
    by (auto simp: try_item_def split: step.splits if_splits)
  then show ?thesis using item_body_return assms by blast
next
  case (Raise e x) then show ?thesis using try_item_no_raise by blast
qed


lemma process_entries_no_obj:
  assumes "\<forall>item \<in> set items. tag_of item \<noteq> ''#OBJ''"
  shows "\<exists>st'. process_entries parse items st = Next st'"
  using assms
proof (induction items arbitrary: st)
  case Nil then show ?case by simp
next
  case (Cons item items)
  then obtain st1 where "try_item parse item st = Next st1"
    using try_item_next [of item parse st] by auto
  then show ?case using Cons by simp
qed


lemma recv_loop_timeout:
  assumes "\<forall>i<n. \<exists>chunk. rcv (k + i) = Data chunk \<and>
             (\<forall>item \<in> set (split crlf chunk). tag_of item \<noteq> ''#OBJ'')"
    and "rcv (k + n) = Timeout"
  shows "recv_loop parse rcv k st =
     Some (Returned (Literal ''No device connected'', Scalar 0, Scalar 0, 0, None) (Some []))"
  using assms
proof (induction n arbitrary: k st)
  case 0
  then show ?case by (subst recv_loop.simps) simp
next
  case (Suc n)
  from Suc.prems(1) obtain chunk where chunk: "rcv k = Data chunk"
    "\<forall>item \<in> set (split crlf chunk). tag_of item \<noteq> ''#OBJ''"
    by (metis add.right_neutral zero_less_Suc)
  obtain st1 where st1: "process_entries parse (split crlf chunk) st = Next st1"
    using process_entries_no_obj [OF chunk(2)] by blast
  have "\<forall>i<n. \<exists>chunk. rcv (Suc k + i) = Data chunk \<and>
             (\<forall>item \<in> set (split crlf chunk). tag_of item \<noteq> ''#OBJ'')"
    using Suc.prems(1) by (metis Suc_less_eq add_Suc_shift)
  moreover have "rcv (Suc k + n) = Timeout" using Suc.prems(2) by simp
  ultimately have "recv_loop parse rcv (Suc k) st1 =
     Some (Returned (Literal ''No device connected'', Scalar 0, Scalar 0, 0, None) (Some []))"
    by (rule Suc.IH)
  then show ?case using chunk(1) st1 by (subst recv_loop.simps) simp
qed

text \<open>
  C4. If \<^verbatim>\<open>sendall\<close> succeeds, the first \<open>n\<close> reads deliver text with no \<^verbatim>\<open>#OBJ\<close> record
  in it, and the next read times out, then the call returns
  \<^verbatim>\<open>('No device connected', 0, 0, 0, None)\<close> and leaves the global \<^verbatim>\<open>tof_id\<close> set to the
  empty string; it does not raise and it does not run forever.
\<close>

theorem timeout_returns_no_device:
  assumes "sendall_ok s"
    and "\<forall>i<n. \<exists>chunk. recv s i = Data chunk \<and>
             (\<forall>item \<in> set (split crlf chunk). tag_of item \<noteq> ''#OBJ'')"
    and "recv s n = Timeout"
  shows "get_data_from_EVM_GUI parse s tof =
     Some (Returned (Literal ''No device connected'', Scalar 0, Scalar 0, 0, None) (Some ''''))"
  unfolding get_data_from_EVM_GUI_def using assms recv_loop_timeout [of n "recv s" 0]
  by simp

theorem timeout_returns_no_device_witness:
  "sendall_ok silent_sock \<and> recv silent_sock 1 = Timeout \<and>
   get_data_from_EVM_GUI decimal silent_sock (Some ''TMF882X ID 1 - App 2 - Drv 3'') =
     Some (Returned (Literal ''No device connected'', Scalar 0, Scalar 0, 0, None) (Some ''''))"
proof -
  have h1: "sendall_ok silent_sock" by (simp add: silent_sock_def)
  have c: "\<forall>item \<in> set (split crlf (sample_hist_line @ crlf)). tag_of item \<noteq> ''#OBJ''"
    by code_simp
  have h2: "\<forall>i<1. \<exists>chunk. recv silent_sock i = Data chunk \<and>
             (\<forall>item \<in> set (split crlf chunk). tag_of item \<noteq> ''#OBJ'')"
    using c by (simp add: silent_sock_def)
  have h3: "recv silent_sock 1 = Timeout" by (simp add: silent_sock_def)
  show ?thesis
    using h1 h3 timeout_returns_no_device [OF h1 h2 h3] by simp
qed


































end
